theory Spec2Isabelle
  imports Complex_Main
begin

section \<open>Data model (types/movie.ts, Filters.tsx)\<close>

text \<open>
  JavaScript numbers that hold identifiers, years and counters are modelled as \<open>int\<close> or
  \<open>nat\<close>; pointer coordinates and the entries of the preference vector as \<open>real\<close>.  An
  optional or nullable field is an \<open>option\<close>.
\<close>

record Movie =
  movieId :: int
  title :: string
  poster_path :: string
  overview :: string
  genres :: string
  release_date :: string

record UserMovieList =
  liked :: "Movie list"
  saved :: "Movie list"
  disliked :: "Movie list"

record FilterState =
  genres :: "string list"
  languages :: "string list"
  yearRange :: "int \<times> int"

datatype Action = Like | Dislike | Skip | Save

datatype ListName = Liked | Saved | Disliked

datatype View = Intro | Swipe | Lists

record FeedbackRequest =
  user_vector :: "real list option"
  movie_id :: int
  feedback :: Action

record RecommendationRequest =
  user_vector :: "real list option"
  seen_ids :: "int list"
  liked_ids :: "int list"
  genre :: "string option"
  language :: "string option"
  year_start :: "int option"
  year_end :: "int option"

record RecommendationResponse =
  movie :: "Movie option"
  user_vector :: "real list option"
  error :: "string option"

text \<open>How the awaited call \<open>MovieAPI.getRecommendation\<close> settles: it resolves with a
  response body, or it rejects (network failure, non-2xx status), which lands in the
  \<open>catch\<close> block of \<open>fetchNextMovie\<close>.\<close>

datatype Outcome = Resolved RecommendationResponse | Rejected

section \<open>SwipeCard.tsx and MovieCard.tsx: gesture recognition\<close>

record SwipeCard =
  isDragging :: bool
  startX :: real
  startY :: real
  translateX :: real
  translateY :: real

datatype Swipe = SwipeLeft | SwipeRight | SwipeUp

text \<open>The card as \<open>useState\<close> creates it.\<close>

definition initialCard :: SwipeCard where
  "initialCard = \<lparr>isDragging = False, startX = 0, startY = 0, translateX = 0, translateY = 0\<rparr>"

definition handleStart :: "bool \<Rightarrow> real \<Rightarrow> real \<Rightarrow> SwipeCard \<Rightarrow> SwipeCard" where
  "handleStart disabled clientX clientY s =
     (if disabled then s
      else s\<lparr>isDragging := True, startX := clientX, startY := clientY\<rparr>)"

definition handleMove :: "bool \<Rightarrow> real \<Rightarrow> real \<Rightarrow> SwipeCard \<Rightarrow> SwipeCard" where
  "handleMove disabled clientX clientY s =
     (if \<not> isDragging s \<or> disabled then s
      else s\<lparr>translateX := clientX - startX s, translateY := clientY - startY s\<rparr>)"

text \<open>\<open>handleEnd\<close> returns the card state after the release and the callback it fired
  (\<open>onSwipeUp\<close>, \<open>onSwipeRight\<close>, \<open>onSwipeLeft\<close>), if any.\<close>

definition handleEnd :: "bool \<Rightarrow> SwipeCard \<Rightarrow> SwipeCard \<times> Swipe option" where
  "handleEnd disabled s =
     (if \<not> isDragging s \<or> disabled then (s, None)
      else
        let threshold = 120;
            verticalThreshold = 100;
            fired =
              (if translateY s < - verticalThreshold \<and> \<bar>translateX s\<bar> < threshold
                 then Some SwipeUp
               else if translateX s > threshold then Some SwipeRight
               else if translateX s < - threshold then Some SwipeLeft
               else None)
        in (s\<lparr>isDragging := False, translateX := 0, translateY := 0\<rparr>, fired))"

text \<open>MovieCard wires the three callbacks to \<open>onAction\<close>.\<close>

fun swipeAction :: "Swipe \<Rightarrow> Action" where
  "swipeAction SwipeLeft = Dislike"
| "swipeAction SwipeRight = Like"
| "swipeAction SwipeUp = Save"

text \<open>A complete gesture: press at \<open>(x0, y0)\<close>, drag to \<open>(x0 + dx, y0 + dy)\<close>, release.
  The result is the card after the release and the action handed to \<open>onAction\<close>.\<close>

definition gesture :: "real \<Rightarrow> real \<Rightarrow> real \<Rightarrow> real \<Rightarrow> SwipeCard \<Rightarrow> SwipeCard \<times> Action option" where
  "gesture x0 y0 dx dy s =
     (let (s', fired) = handleEnd False (handleMove False (x0 + dx) (y0 + dy) (handleStart False x0 y0 s))
      in (s', map_option swipeAction fired))"

section \<open>MovieMatchApp.tsx: state\<close>

text \<open>
  \<open>Render\<close> is the React state of the component as one render sees it; the callbacks
  created by a render (\<open>fetchNextMovie\<close>, \<open>handleAction\<close>, ...) read these values from
  their closure.  \<open>App\<close> extends the latest committed render with the three refs, which
  every closure shares, with the notifications shown by \<open>toast.error\<close>, and with the
  suspended remainder of \<open>fetchNextMovie\<close> while its request is awaited: the closure that
  issued the request and its local \<open>allExcludedIds\<close>.

  The ref \<open>recentlyFetchedIds\<close> is a JavaScript \<open>Set\<close>, which iterates in insertion order:
  it is a list, kept free of repetitions by \<open>set_add\<close>.  \<open>fetchTimeoutRef\<close> is the live
  timer, if any: its delay in milliseconds and the closure its callback invokes.
\<close>

record Render =
  currentView :: View
  hasStarted :: bool
  currentMovie :: "Movie option"
  userLists :: UserMovieList
  userVector :: "real list option"
  isLoading :: bool
  filters :: FilterState

record App = Render +
  recentlyFetchedIds :: "int list"
  fetchTimeoutRef :: "(nat \<times> Render) option"
  fetchAttemptCount :: nat
  toasts :: "string list"
  pending :: "(Render \<times> int list) option"

definition maxFetchAttempts :: nat where
  "maxFetchAttempts = 5"

definition movieYearRange :: "int \<times> int" where
  "movieYearRange = (1900, 2024)"

definition initialApp :: App where
  "initialApp =
     \<lparr>currentView = Intro, hasStarted = False, currentMovie = None,
      userLists = \<lparr>liked = [], saved = [], disliked = []\<rparr>,
      userVector = None, isLoading = False,
      filters = \<lparr>genres = [], languages = [], yearRange = (1990, 2024)\<rparr>,
      recentlyFetchedIds = [], fetchTimeoutRef = None, fetchAttemptCount = 0,
      toasts = [], pending = None\<rparr>"

subsection \<open>JavaScript library operations\<close>

text \<open>\<open>Set.prototype.add\<close>: a value already present keeps its place.\<close>

definition set_add :: "int \<Rightarrow> int list \<Rightarrow> int list" where
  "set_add x xs = (if x \<in> set xs then xs else xs @ [x])"

text \<open>\<open>Array.prototype.slice(-n)\<close>: the last \<open>n\<close> elements, all of them when there are
  fewer.\<close>

definition slice_last :: "nat \<Rightarrow> 'a list \<Rightarrow> 'a list" where
  "slice_last n xs = drop (length xs - n) xs"

text \<open>Truthiness of an optional string, as in \<open>if (response.error)\<close>: \<open>undefined\<close> and the
  empty string are falsy.\<close>

definition truthy :: "string option \<Rightarrow> bool" where
  "truthy e = (case e of None \<Rightarrow> False | Some s \<Rightarrow> s \<noteq> [])"

subsection \<open>fetchNextMovie\<close>

definition getAllSeenIds :: "Render \<Rightarrow> int list" where
  "getAllSeenIds c =
     map movieId (liked (userLists c) @ saved (userLists c) @ disliked (userLists c))"

definition getLikedIds :: "Render \<Rightarrow> int list" where
  "getLikedIds c = map movieId (liked (userLists c))"

text \<open>The request object: \<open>filterObj\<close> spread into the fixed fields.\<close>

definition buildRequest :: "Render \<Rightarrow> int list \<Rightarrow> RecommendationRequest" where
  "buildRequest c allExcludedIds =
     \<lparr>RecommendationRequest.user_vector = userVector c,
      seen_ids = allExcludedIds,
      liked_ids = getLikedIds c,
      genre = (if length (genres (filters c)) > 0 then Some (genres (filters c) ! 0) else None),
      language = (if length (languages (filters c)) > 0 then Some (languages (filters c) ! 0) else None),
      year_start = (if fst (yearRange (filters c)) \<noteq> fst movieYearRange
                    then Some (fst (yearRange (filters c))) else None),
      year_end = (if snd (yearRange (filters c)) \<noteq> snd movieYearRange
                  then Some (snd (yearRange (filters c))) else None)\<rparr>"

text \<open>
  \<open>fetchNextMovie\<close> up to its \<open>await\<close>.  \<open>c\<close> is the closure of the callback that is
  invoked, \<open>a\<close> the application it runs in.  The result is the application after the
  synchronous part and the request sent, if one is sent.
\<close>

definition fetchNextMovie_begin :: "Render \<Rightarrow> App \<Rightarrow> App \<times> RecommendationRequest option" where
  "fetchNextMovie_begin c a =
     (if isLoading c then (a, None)
      else
        let a1 = a\<lparr>fetchTimeoutRef := None\<rparr> in
        if fetchAttemptCount a1 \<ge> maxFetchAttempts then
          (a1\<lparr>recentlyFetchedIds := [], fetchAttemptCount := 0,
              currentMovie := None, isLoading := False\<rparr>, None)
        else
          let allExcludedIds = getAllSeenIds c @ recentlyFetchedIds a1
          in (a1\<lparr>isLoading := True, pending := Some (c, allExcludedIds)\<rparr>,
              Some (buildRequest c allExcludedIds)))"

text \<open>\<open>fetchNextMovie\<close> from the point where the awaited call has settled, with the
  \<open>finally\<close> block folded into every branch.\<close>

definition fetchNextMovie_resume :: "Render \<Rightarrow> int list \<Rightarrow> Outcome \<Rightarrow> App \<Rightarrow> App" where
  "fetchNextMovie_resume c allExcludedIds out a =
     (case out of
        Rejected \<Rightarrow>
          a\<lparr>toasts := toasts a @
                [''Failed to fetch movie recommendation. Please check your connection and try again.''],
            currentMovie := None, fetchAttemptCount := 0, isLoading := False\<rparr>
      | Resolved response \<Rightarrow>
          if truthy (error response) then
            a\<lparr>toasts := toasts a @ [case error response of Some e \<Rightarrow> e | None \<Rightarrow> []],
              currentMovie := None, fetchAttemptCount := 0, isLoading := False\<rparr>
          else
            (case movie response of
               None \<Rightarrow> a\<lparr>isLoading := False\<rparr>
             | Some m \<Rightarrow>
                 if movieId m \<in> set allExcludedIds then
                   let a1 = a\<lparr>recentlyFetchedIds := set_add (movieId m) (recentlyFetchedIds a),
                               fetchAttemptCount := fetchAttemptCount a + 1,
                               isLoading := False\<rparr>
                   in if fetchAttemptCount a1 \<ge> maxFetchAttempts then a1\<lparr>currentMovie := None\<rparr>
                      else a1\<lparr>fetchTimeoutRef :=
                                Some (min (200 * 2 ^ (fetchAttemptCount a1 - 1)) 2000, c)\<rparr>
                 else
                   let ids = set_add (movieId m) (recentlyFetchedIds a);
                       ids' = (if length ids > 50 then slice_last 50 ids else ids)
                   in a\<lparr>recentlyFetchedIds := ids',
                        fetchAttemptCount := 0,
                        currentMovie := Some m,
                        userVector := (case RecommendationResponse.user_vector response of
                                         Some v \<Rightarrow> Some v | None \<Rightarrow> userVector a),
                        isLoading := False\<rparr>))"

text \<open>The effect that follows a render in which \<open>filters\<close>, \<open>hasStarted\<close> or
  \<open>currentView\<close> changed: it calls the \<open>fetchNextMovie\<close> of that render.\<close>

definition fetchEffect :: "App \<Rightarrow> App \<times> RecommendationRequest option" where
  "fetchEffect a =
     (if hasStarted a \<and> currentView a = Swipe then fetchNextMovie_begin (Render.truncate a) a
      else (a, None))"

subsection \<open>The categorized lists\<close>

fun getList :: "ListName \<Rightarrow> UserMovieList \<Rightarrow> Movie list" where
  "getList Liked ls = liked ls"
| "getList Saved ls = saved ls"
| "getList Disliked ls = disliked ls"

fun setList :: "ListName \<Rightarrow> Movie list \<Rightarrow> UserMovieList \<Rightarrow> UserMovieList" where
  "setList Liked xs ls = ls\<lparr>liked := xs\<rparr>"
| "setList Saved xs ls = ls\<lparr>saved := xs\<rparr>"
| "setList Disliked xs ls = ls\<lparr>disliked := xs\<rparr>"

text \<open>The \<open>switch\<close> of \<open>handleAction\<close>.\<close>

fun classify :: "Movie \<Rightarrow> Action \<Rightarrow> UserMovieList \<Rightarrow> UserMovieList" where
  "classify movieToProcess Like ls = ls\<lparr>liked := liked ls @ [movieToProcess]\<rparr>"
| "classify movieToProcess Dislike ls = ls\<lparr>disliked := disliked ls @ [movieToProcess]\<rparr>"
| "classify movieToProcess Save ls = ls\<lparr>saved := saved ls @ [movieToProcess]\<rparr>"
| "classify movieToProcess Skip ls = ls"

text \<open>The updater functions that \<open>handleMoveMovie\<close> and \<open>handleRemoveMovie\<close> pass to
  \<open>setUserLists\<close>.\<close>

definition moveMovie :: "Movie \<Rightarrow> ListName \<Rightarrow> ListName \<Rightarrow> UserMovieList \<Rightarrow> UserMovieList" where
  "moveMovie m fromList toList prev =
     (let newLists = setList fromList
                       (filter (\<lambda>x. movieId x \<noteq> movieId m) (getList fromList prev)) prev
      in if find (\<lambda>x. movieId x = movieId m) (getList toList newLists) = None
         then setList toList (getList toList newLists @ [m]) newLists
         else newLists)"

definition removeMovie :: "Movie \<Rightarrow> ListName \<Rightarrow> UserMovieList \<Rightarrow> UserMovieList" where
  "removeMovie m fromList prev =
     setList fromList (filter (\<lambda>x. movieId x \<noteq> movieId m) (getList fromList prev)) prev"

definition handleMoveMovie :: "Movie \<Rightarrow> ListName \<Rightarrow> ListName \<Rightarrow> App \<Rightarrow> App" where
  "handleMoveMovie m fromList toList a = a\<lparr>userLists := moveMovie m fromList toList (userLists a)\<rparr>"

definition handleRemoveMovie :: "Movie \<Rightarrow> ListName \<Rightarrow> App \<Rightarrow> App" where
  "handleRemoveMovie m fromList a = a\<lparr>userLists := removeMovie m fromList (userLists a)\<rparr>"

subsection \<open>handleAction, resetMovies, handleStartSwiping, handleGoHome\<close>

text \<open>
  \<open>handleAction\<close> returns the application, the recommendation request it sent and the
  feedback request it sent.  The \<open>fetchNextMovie\<close> it calls is the one of the render the
  handler belongs to, so it reads the lists, filters and vector from before the action.
  The state \<open>showControlsTip\<close> only drives a tooltip and is left out.
\<close>

definition handleAction ::
  "Action \<Rightarrow> App \<Rightarrow> App \<times> RecommendationRequest option \<times> FeedbackRequest option" where
  "handleAction action a =
     (case currentMovie a of
        None \<Rightarrow> (a, None, None)
      | Some movieToProcess \<Rightarrow>
          if isLoading a then (a, None, None)
          else
            let c = Render.truncate a;
                a1 = a\<lparr>currentMovie := None\<rparr>;
                a2 = a1\<lparr>userLists := classify movieToProcess action (userLists a)\<rparr>;
                a3 = (if length (recentlyFetchedIds a2) > 30
                      then a2\<lparr>recentlyFetchedIds := slice_last 15 (recentlyFetchedIds a2)\<rparr>
                      else a2);
                (a4, req) = fetchNextMovie_begin c a3;
                fb = (if action = Like \<or> action = Dislike
                      then Some \<lparr>FeedbackRequest.user_vector = userVector c,
                                 movie_id = movieId movieToProcess,
                                 feedback = action\<rparr>
                      else None)
            in (a4, req, fb))"

definition resetMovies :: "App \<Rightarrow> App \<times> RecommendationRequest option" where
  "resetMovies a =
     (let c = Render.truncate a;
          a1 = a\<lparr>currentMovie := None, userVector := None,
                 recentlyFetchedIds := [], fetchAttemptCount := 0,
                 filters := \<lparr>genres = [], languages = [], yearRange = movieYearRange\<rparr>\<rparr>
      in fetchNextMovie_begin c a1)"

definition handleStartSwiping :: "Movie list \<Rightarrow> App \<Rightarrow> App" where
  "handleStartSwiping preSelectedMovies a =
     a\<lparr>userLists := (userLists a)\<lparr>liked := liked (userLists a) @ preSelectedMovies\<rparr>,
       currentView := Swipe, hasStarted := True\<rparr>"

definition handleGoHome :: "App \<Rightarrow> App" where
  "handleGoHome a =
     a\<lparr>currentView := Intro, hasStarted := False, currentMovie := None, userVector := None\<rparr>"

section \<open>The event loop\<close>

text \<open>
  The component is driven by one event at a time.  A handler that changes \<open>filters\<close>,
  \<open>hasStarted\<close> or \<open>currentView\<close> is followed by the effect of the next render.  A
  response or a timer that has nothing to settle or to fire leaves the state as it is.
\<close>

datatype Event =
    StartSwiping "Movie list"
  | GoHome
  | SetView View
  | SetFilters FilterState
  | Response Outcome
  | TimerFire
  | UserAction Action
  | MoveMovie Movie ListName ListName
  | RemoveMovie Movie ListName
  | Reset

fun step :: "Event \<Rightarrow> App \<Rightarrow> App" where
  "step (StartSwiping ms) a = fst (fetchEffect (handleStartSwiping ms a))"
| "step GoHome a = handleGoHome a"
| "step (SetView v) a =
     (if v = currentView a then a else fst (fetchEffect (a\<lparr>currentView := v\<rparr>)))"
| "step (SetFilters f) a = fst (fetchEffect (a\<lparr>filters := f\<rparr>))"
| "step (Response out) a =
     (case pending a of
        None \<Rightarrow> a
      | Some (c, allExcludedIds) \<Rightarrow> fetchNextMovie_resume c allExcludedIds out (a\<lparr>pending := None\<rparr>))"
| "step TimerFire a =
     (case fetchTimeoutRef a of
        None \<Rightarrow> a
      | Some (delay, c) \<Rightarrow> fst (fetchNextMovie_begin c (a\<lparr>fetchTimeoutRef := None\<rparr>)))"
| "step (UserAction action) a = fst (handleAction action a)"
| "step (MoveMovie m fromList toList) a = handleMoveMovie m fromList toList a"
| "step (RemoveMovie m fromList) a = handleRemoveMovie m fromList a"
| "step Reset a = fst (fetchEffect (fst (resetMovies a)))"

fun run :: "Event list \<Rightarrow> App \<Rightarrow> App" where
  "run [] a = a"
| "run (e # es) a = run es (step e a)"

section \<open>Operations on the categorized lists alone\<close>

text \<open>A list operation is what \<open>handleAction\<close>, \<open>handleMoveMovie\<close> and
  \<open>handleRemoveMovie\<close> do to \<open>userLists\<close>.\<close>

datatype ListOp = Classify Movie Action | Move Movie ListName ListName | Remove Movie ListName

fun applyOp :: "ListOp \<Rightarrow> UserMovieList \<Rightarrow> UserMovieList" where
  "applyOp (Classify m action) ls = classify m action ls"
| "applyOp (Move m fromList toList) ls = moveMovie m fromList toList ls"
| "applyOp (Remove m fromList) ls = removeMovie m fromList ls"

fun applyOps :: "ListOp list \<Rightarrow> UserMovieList \<Rightarrow> UserMovieList" where
  "applyOps [] ls = ls"
| "applyOps (op # ops) ls = applyOps ops (applyOp op ls)"

definition idsOf :: "ListName \<Rightarrow> UserMovieList \<Rightarrow> int set" where
  "idsOf l ls = movieId ` set (getList l ls)"

text \<open>No identifier is in more than one of the three lists.\<close>

definition exclusive :: "UserMovieList \<Rightarrow> bool" where
  "exclusive ls =
     (idsOf Liked ls \<inter> idsOf Saved ls = {} \<and>
      idsOf Liked ls \<inter> idsOf Disliked ls = {} \<and>
      idsOf Saved ls \<inter> idsOf Disliked ls = {})"

text \<open>No list holds an identifier twice.\<close>

definition keyed :: "UserMovieList \<Rightarrow> bool" where
  "keyed ls = (distinct (map movieId (liked ls)) \<and> distinct (map movieId (saved ls))
               \<and> distinct (map movieId (disliked ls)))"

text \<open>An operation is admissible when it is one the screens can produce: the candidate that
  is classified is in no list yet (\<open>fetchNextMovie\<close> displays only a movie whose id is not
  among the excluded ones), and a movie is moved out of the list whose tab shows it.\<close>

fun admissible :: "ListOp \<Rightarrow> UserMovieList \<Rightarrow> bool" where
  "admissible (Classify m action) ls =
     (movieId m \<notin> idsOf Liked ls \<and> movieId m \<notin> idsOf Saved ls \<and> movieId m \<notin> idsOf Disliked ls)"
| "admissible (Move m fromList toList) ls = (movieId m \<in> idsOf fromList ls)"
| "admissible (Remove m fromList) ls = True"

fun allAdmissible :: "ListOp list \<Rightarrow> UserMovieList \<Rightarrow> bool" where
  "allAdmissible [] ls = True"
| "allAdmissible (op # ops) ls = (admissible op ls \<and> allAdmissible ops (applyOp op ls))"

section \<open>Invariant of the retry budget\<close>

definition budgetInv :: "App \<Rightarrow> bool" where
  "budgetInv a =
     (fetchAttemptCount a \<le> maxFetchAttempts
      \<and> (pending a \<noteq> None \<longrightarrow> fetchAttemptCount a < maxFetchAttempts)
      \<and> (fetchAttemptCount a \<ge> maxFetchAttempts \<longrightarrow> currentMovie a = None))"

text \<open>While a request is pending the render is loading and no timer is set.\<close>

definition flightInv :: "App \<Rightarrow> bool" where
  "flightInv a = (pending a \<noteq> None \<longrightarrow> isLoading a \<and> fetchTimeoutRef a = None)"

section \<open>A fetch cycle left to itself\<close>

text \<open>What a settled call offers as next candidate: the \<open>error\<close> test comes first in
  \<open>fetchNextMovie\<close>, then the \<open>movie\<close> test.\<close>

fun candidateOf :: "Outcome \<Rightarrow> Movie option" where
  "candidateOf Rejected = None"
| "candidateOf (Resolved r) = (if truthy (error r) then None else movie r)"

text \<open>The delay the source computes once the counter stands at \<open>attempt\<close>.\<close>

definition backoff :: "nat \<Rightarrow> nat" where
  "backoff attempt = min (200 * 2 ^ (attempt - 1)) 2000"

text \<open>
  \<open>retryCycle\<close> lets a pending request settle with the first outcome, lets the timer fire if
  the handler set one, and goes on with the request that sends, until no timer is set or
  no request is pending.  It returns the delays of the timers that fired, the number of
  requests that were answered, and the final application.
\<close>

fun retryCycle :: "Outcome list \<Rightarrow> App \<Rightarrow> nat list \<times> nat \<times> App" where
  "retryCycle [] a = ([], 0, a)"
| "retryCycle (out # outs) a =
     (case pending a of
        None \<Rightarrow> ([], 0, a)
      | Some p \<Rightarrow>
          let a1 = step (Response out) a in
          (case fetchTimeoutRef a1 of
             None \<Rightarrow> ([], 1, a1)
           | Some (delay, c) \<Rightarrow>
               let (delays, n, a') = retryCycle outs (step TimerFire a1)
               in (delay # delays, Suc n, a')))"

text \<open>A response is a duplicate when it offers a candidate whose id is in the exclusion
  list that was sent with the request.\<close>

fun duplicateResponse :: "Event \<Rightarrow> App \<Rightarrow> bool" where
  "duplicateResponse (Response out) a =
     (case pending a of
        None \<Rightarrow> False
      | Some (c, allExcludedIds) \<Rightarrow>
          (case candidateOf out of None \<Rightarrow> False | Some m \<Rightarrow> movieId m \<in> set allExcludedIds))"
| "duplicateResponse e a = False"

fun duplicateFree :: "Event list \<Rightarrow> App \<Rightarrow> bool" where
  "duplicateFree [] a = True"
| "duplicateFree (e # es) a = (\<not> duplicateResponse e a \<and> duplicateFree es (step e a))"

text \<open>Every response of a cycle left to itself is a duplicate, each with respect to the
  exclusion list of the request it answers.\<close>

fun allDuplicates :: "Outcome list \<Rightarrow> App \<Rightarrow> bool" where
  "allDuplicates [] a = True"
| "allDuplicates (out # outs) a =
     (duplicateResponse (Response out) a
      \<and> allDuplicates outs (step TimerFire (step (Response out) a)))"

section \<open>Sample data\<close>

definition sampleMovie :: "int \<Rightarrow> Movie" where
  "sampleMovie i =
     \<lparr>movieId = i, title = ''Movie'', poster_path = ''/p.jpg'', overview = ''An overview'',
      genres = ''Drama'', release_date = ''1999-03-31''\<rparr>"

definition emptyLists :: UserMovieList where
  "emptyLists = \<lparr>liked = [], saved = [], disliked = []\<rparr>"

text \<open>The discovery screen showing a movie, nothing in flight.\<close>

definition displaying :: "Movie \<Rightarrow> App" where
  "displaying m =
     initialApp\<lparr>currentView := Swipe, hasStarted := True, currentMovie := Some m,
                recentlyFetchedIds := [movieId m]\<rparr>"

definition actionFilters :: FilterState where
  "actionFilters = \<lparr>genres = [''Action'', ''Comedy''], languages = [], yearRange = (1990, 2024)\<rparr>"

definition noMoviesResponse :: RecommendationResponse where
  "noMoviesResponse = \<lparr>movie = None, user_vector = None, error = Some ''No movies found''\<rparr>"

text \<open>A response that offers the movie, without error and without a new vector.\<close>

definition offers :: "Movie \<Rightarrow> Outcome" where
  "offers m = Resolved \<lparr>movie = Some m, user_vector = None, error = None\<rparr>"

text \<open>The application once \<open>fetchNextMovie\<close> of the displaying render has sent its
  request.\<close>

definition awaiting :: "Movie \<Rightarrow> App" where
  "awaiting m = fst (fetchNextMovie_begin (Render.truncate (displaying m)) (displaying m))"

text \<open>The server keeps offering movie 7.\<close>

definition staleOffers :: "Outcome list" where
  "staleOffers = replicate 5 (offers (sampleMovie 7))"

text \<open>A response with neither a movie nor an error.\<close>

definition emptyAnswer :: Outcome where
  "emptyAnswer = Resolved \<lparr>movie = None, user_vector = None, error = None\<rparr>"

text \<open>One duplicate, then an empty answer: nothing is pending and the counter stands at 1.\<close>

definition idleAtOne :: "Event list" where
  "idleAtOne =
     [StartSwiping [sampleMovie 3], Response (offers (sampleMovie 3)), TimerFire,
      Response emptyAnswer]"

text \<open>Starting twice with the same pre-selected movie, with a visit to the intro screen in
  between.\<close>

definition twiceLiked :: "Event list" where
  "twiceLiked = [StartSwiping [sampleMovie 1], GoHome, StartSwiping [sampleMovie 1]]"

text \<open>Event sequences: each filter change (\<open>browse\<close>) or skip (\<open>skipThrough\<close>) is answered by
  one offer.\<close>

fun browse :: "int list \<Rightarrow> Event list" where
  "browse [] = []"
| "browse (i # is) = SetFilters actionFilters # Response (offers (sampleMovie i)) # browse is"

fun skipThrough :: "int list \<Rightarrow> Event list" where
  "skipThrough [] = []"
| "skipThrough (i # is) = Response (offers (sampleMovie i)) # UserAction Skip # skipThrough is"

definition abortRun :: "Event list" where
  "abortRun =
     [StartSwiping [sampleMovie 3],
      Response (offers (sampleMovie 3)), TimerFire,
      Response (offers (sampleMovie 3)), TimerFire,
      Response (offers (sampleMovie 3)), TimerFire,
      Response (offers (sampleMovie 3)), TimerFire,
      Response (offers (sampleMovie 3))]"

definition sixteenOffers :: "Event list" where
  "sixteenOffers = StartSwiping [] # skipThrough [1..15] @ [Response (offers (sampleMovie 16))]"

definition thirtyOneOffers :: "Event list" where
  "thirtyOneOffers = StartSwiping [] # Response (offers (sampleMovie 1)) # browse [2..31]"

definition overflowRun :: "Event list" where
  "overflowRun =
     StartSwiping [sampleMovie 1000] # Response (offers (sampleMovie 1)) # browse [2..50] @ browse [1000]"

section \<open>Gesture classification\<close>

lemma gesture_eq:
  "gesture x0 y0 dx dy s =
     ((handleStart False x0 y0 s)\<lparr>isDragging := False, translateX := 0, translateY := 0\<rparr>,
      if dy < - 100 \<and> \<bar>dx\<bar> < 120 then Some Save
      else if dx > 120 then Some Like
      else if dx < - 120 then Some Dislike
      else None)"
  by (simp add: gesture_def handleEnd_def handleMove_def handleStart_def Let_def)

text \<open>
  C4 (as amended).  For every release displacement \<open>(dx, dy)\<close> of an enabled card the
  first matching rule decides: \<open>dy < -100\<close> (strictly) and \<open>|dx| < 120\<close> gives save;
  else \<open>dx > 120\<close> gives like; else \<open>dx < -120\<close> gives dislike; else no action is
  committed.  In every case the card position is reset to the origin.  The four scenarios
  \<open>(130, 0)\<close>, \<open>(-130, 0)\<close>, \<open>(20, -110)\<close>, \<open>(50, 30)\<close> give like, dislike, save and
  none.
\<close>

theorem C4_gesture_priority:
  "snd (gesture x0 y0 dx dy s) =
     (if dy < - 100 \<and> \<bar>dx\<bar> < 120 then Some Save
      else if dx > 120 then Some Like
      else if dx < - 120 then Some Dislike
      else None)
   \<and> translateX (fst (gesture x0 y0 dx dy s)) = 0
   \<and> translateY (fst (gesture x0 y0 dx dy s)) = 0
   \<and> snd (gesture x0 y0 130 0 s) = Some Like
   \<and> snd (gesture x0 y0 (- 130) 0 s) = Some Dislike
   \<and> snd (gesture x0 y0 20 (- 110) s) = Some Save
   \<and> snd (gesture x0 y0 50 30 s) = None"
  by (simp add: gesture_eq)

text \<open>C4 as stated fails on the boundary: a release exactly 100 pixels above the start,
  with no horizontal displacement, commits nothing, where the claim's first rule
  (\<open>dy \<le> -100\<close>) demands save.\<close>

theorem C4_boundary_counterexample:
  "snd (gesture 0 0 0 (- 100) initialCard) = None
   \<and> snd (gesture 0 0 0 (- 100) initialCard) \<noteq> Some Save"
  by (simp add: gesture_def handleEnd_def handleMove_def handleStart_def Let_def initialCard_def)


section \<open>The fetch cycle\<close>

lemma begin_request:
  "\<not> isLoading c \<Longrightarrow> fetchAttemptCount a < maxFetchAttempts \<Longrightarrow>
   fetchNextMovie_begin c a =
     (a\<lparr>fetchTimeoutRef := None, isLoading := True,
        pending := Some (c, getAllSeenIds c @ recentlyFetchedIds a)\<rparr>,
      Some (buildRequest c (getAllSeenIds c @ recentlyFetchedIds a)))"
  by (simp add: fetchNextMovie_begin_def Let_def)

lemma begin_Some:
  "snd (fetchNextMovie_begin c a) = Some req \<Longrightarrow>
   req = buildRequest c (getAllSeenIds c @ recentlyFetchedIds a)"
  by (auto simp add: fetchNextMovie_begin_def Let_def split: if_splits)

lemma resume_Rejected:
  "fetchNextMovie_resume c ex Rejected a =
     a\<lparr>toasts := toasts a @ [''Failed to fetch movie recommendation. Please check your connection and try again.''],
       currentMovie := None, fetchAttemptCount := 0, isLoading := False\<rparr>"
  by (simp add: fetchNextMovie_resume_def)

lemma resume_error:
  "error r = Some e \<Longrightarrow> e \<noteq> [] \<Longrightarrow>
   fetchNextMovie_resume c ex (Resolved r) a =
     a\<lparr>toasts := toasts a @ [e], currentMovie := None, fetchAttemptCount := 0, isLoading := False\<rparr>"
  by (simp add: fetchNextMovie_resume_def truthy_def)


text \<open>
  C6.  When the awaited call rejects (transport error), or resolves with a response whose
  \<open>error\<close> field holds a message, the fetch clears the displayed candidate, resets the
  attempt counter to 0, shows the message to the user and leaves no retry timer; the
  categorized lists and the rolling window are as they were before the fetch.  (An
  \<open>error\<close> field holding the empty string is falsy in JavaScript and is not taken for an
  error by \<open>if (response.error)\<close>.)
\<close>

theorem C6_fatal_error:
  assumes "\<not> isLoading c" and "fetchAttemptCount a < maxFetchAttempts"
    and "out = Rejected \<and> msg = ''Failed to fetch movie recommendation. Please check your connection and try again.''
         \<or> out = Resolved r \<and> truthy (error r) \<and> error r = Some msg"
    and "a' = step (Response out) (fst (fetchNextMovie_begin c a))"
  shows "currentMovie a' = None
       \<and> fetchAttemptCount a' = 0
       \<and> toasts a' = toasts a @ [msg]
       \<and> fetchTimeoutRef a' = None
       \<and> pending a' = None
       \<and> \<not> isLoading a'
       \<and> userLists a' = userLists a
       \<and> recentlyFetchedIds a' = recentlyFetchedIds a"
  using assms by (auto simp add: begin_request resume_Rejected resume_error truthy_def)

theorem C6_fatal_error_witness:
  "currentMovie (step (Response (Resolved noMoviesResponse))
       (fst (fetchNextMovie_begin (Render.truncate (displaying (sampleMovie 1))) (displaying (sampleMovie 1)))))
     = None
   \<and> fetchAttemptCount (step (Response (Resolved noMoviesResponse))
       (fst (fetchNextMovie_begin (Render.truncate (displaying (sampleMovie 1))) (displaying (sampleMovie 1)))))
     = 0
   \<and> toasts (step (Response (Resolved noMoviesResponse))
       (fst (fetchNextMovie_begin (Render.truncate (displaying (sampleMovie 1))) (displaying (sampleMovie 1)))))
     = [''No movies found'']
   \<and> recentlyFetchedIds (step (Response (Resolved noMoviesResponse))
       (fst (fetchNextMovie_begin (Render.truncate (displaying (sampleMovie 1))) (displaying (sampleMovie 1)))))
     = [1]"
  using C6_fatal_error [of "Render.truncate (displaying (sampleMovie 1))" "displaying (sampleMovie 1)"
      "Resolved noMoviesResponse" "''No movies found''" noMoviesResponse
      "step (Response (Resolved noMoviesResponse))
       (fst (fetchNextMovie_begin (Render.truncate (displaying (sampleMovie 1))) (displaying (sampleMovie 1))))"]
  by (simp add: displaying_def initialApp_def Render.truncate_def maxFetchAttempts_def
      noMoviesResponse_def sampleMovie_def truthy_def)

text \<open>
  C8.  Every request that \<open>fetchNextMovie\<close> sends carries the first selected genre, or no
  genre when none is selected; the first selected language, or none; \<open>year_start\<close> exactly
  when the lower bound is not 1900 and \<open>year_end\<close> exactly when the upper bound is not 2024.
  The filters are those of the closure that sends the request.
\<close>

theorem C8_request_filters:
  assumes "snd (fetchNextMovie_begin c a) = Some req"
  shows "genre req = (case genres (filters c) of [] \<Rightarrow> None | g # gs \<Rightarrow> Some g)
       \<and> language req = (case languages (filters c) of [] \<Rightarrow> None | l # ls \<Rightarrow> Some l)
       \<and> year_start req = (if fst (yearRange (filters c)) = 1900 then None
                            else Some (fst (yearRange (filters c))))
       \<and> year_end req = (if snd (yearRange (filters c)) = 2024 then None
                          else Some (snd (yearRange (filters c))))"
  using begin_Some [OF assms]
  by (simp add: buildRequest_def movieYearRange_def split: list.splits)

theorem C8_request_filters_witness:
  "snd (fetchNextMovie_begin (Render.truncate (initialApp\<lparr>filters := actionFilters\<rparr>)) initialApp)
     = Some \<lparr>RecommendationRequest.user_vector = None, seen_ids = [], liked_ids = [],
             genre = Some ''Action'', language = None, year_start = Some 1990, year_end = None\<rparr>
   \<and> genre \<lparr>RecommendationRequest.user_vector = None, seen_ids = [], liked_ids = [],
             genre = Some ''Action'', language = None, year_start = Some 1990, year_end = None\<rparr>
       = Some ''Action''"
  using C8_request_filters [of "Render.truncate (initialApp\<lparr>filters := actionFilters\<rparr>)" initialApp
       "\<lparr>RecommendationRequest.user_vector = None, seen_ids = [], liked_ids = [],
             genre = Some ''Action'', language = None, year_start = Some 1990, year_end = None\<rparr>"]
  by (simp add: fetchNextMovie_begin_def buildRequest_def initialApp_def Render.truncate_def
        maxFetchAttempts_def movieYearRange_def getAllSeenIds_def getLikedIds_def Let_def
        actionFilters_def)

section \<open>Handlers\<close>

text \<open>What a successful \<open>handleAction\<close> does to the lists is \<open>classify\<close>.\<close>

lemma handleAction_lists:
  "currentMovie a = Some m \<Longrightarrow> \<not> isLoading a \<Longrightarrow>
   userLists (fst (handleAction action a)) = classify m action (userLists a)"
  by (simp add: handleAction_def Let_def fetchNextMovie_begin_def Render.truncate_def
      split: prod.splits)

text \<open>
  C9.  While no candidate is displayed, or while a fetch is in progress, \<open>handleAction\<close> does
  nothing for any of the four actions: the application (lists, rolling window, attempt
  counter, preference vector, displayed candidate and all the rest) is returned as it
  was, and neither a recommendation request nor a feedback request is sent.
\<close>

theorem C9_action_guard:
  "currentMovie a = None \<or> isLoading a \<Longrightarrow> handleAction action a = (a, None, None)"
  by (auto simp add: handleAction_def split: option.splits)

theorem C9_action_guard_witness:
  "handleAction Like initialApp = (initialApp, None, None)
   \<and> handleAction Skip (initialApp\<lparr>isLoading := True\<rparr>) = (initialApp\<lparr>isLoading := True\<rparr>, None, None)"
  using C9_action_guard [of initialApp Like] C9_action_guard [of "initialApp\<lparr>isLoading := True\<rparr>" Skip]
  by (simp add: initialApp_def)

text \<open>
  C10.  \<open>resetMovies\<close> clears the displayed candidate and the preference vector, empties the
  rolling window, sets the attempt counter to 0 and the filters to no genre, no language
  and the years 1900 to 2024, and then calls \<open>fetchNextMovie\<close>, which sends a request
  unless one is already in flight.  (The button is rendered only while nothing is
  loading.  The request is built by the closure of the render that showed the button.)
\<close>

theorem C10_reset:
  "currentMovie (fst (resetMovies a)) = None
   \<and> recentlyFetchedIds (fst (resetMovies a)) = []
   \<and> fetchAttemptCount (fst (resetMovies a)) = 0
   \<and> userVector (fst (resetMovies a)) = None
   \<and> filters (fst (resetMovies a)) = \<lparr>genres = [], languages = [], yearRange = (1900, 2024)\<rparr>
   \<and> (if isLoading a then snd (resetMovies a) = None
       else snd (resetMovies a) =
              Some (buildRequest (Render.truncate a) (getAllSeenIds (Render.truncate a)))
            \<and> isLoading (fst (resetMovies a))
            \<and> pending (fst (resetMovies a)) =
                Some (Render.truncate a, getAllSeenIds (Render.truncate a)))"
  by (simp add: resetMovies_def fetchNextMovie_begin_def Let_def maxFetchAttempts_def
        movieYearRange_def Render.truncate_def)

section \<open>The categorized lists\<close>

lemma getList_setList: "getList l (setList l' xs ls) = (if l = l' then xs else getList l ls)"
  by (cases l; cases l') simp_all

lemma find_None_ids: "(find (\<lambda>x. movieId x = i) xs = None) = (i \<notin> movieId ` set xs)"
  by (auto simp add: find_None_iff)

lemma moveMovie_target:
  "getList toList (moveMovie m fromList toList prev) =
     (let rest = (if toList = fromList then filter (\<lambda>x. movieId x \<noteq> movieId m) (getList toList prev)
                  else getList toList prev)
      in if movieId m \<in> movieId ` set rest then rest else rest @ [m])"
  by (auto simp add: moveMovie_def Let_def getList_setList find_None_ids)

lemma moveMovie_other:
  "l \<noteq> toList \<Longrightarrow>
   getList l (moveMovie m fromList toList prev) =
     (if l = fromList then filter (\<lambda>x. movieId x \<noteq> movieId m) (getList l prev) else getList l prev)"
  by (simp add: moveMovie_def Let_def getList_setList)

lemma count_none:
  "i \<notin> movieId ` set xs \<Longrightarrow> filter (\<lambda>x. movieId x = i) xs = []"
  by (induction xs) auto

lemma count_once:
  "distinct (map movieId xs) \<Longrightarrow> i \<in> movieId ` set xs \<Longrightarrow>
   length (filter (\<lambda>x. movieId x = i) xs) = 1"
proof (induction xs)
  case Nil
  then show ?case by simp
next
  case (Cons x xs)
  show ?case
  proof (cases "movieId x = i")
    case True
    with Cons.prems have "i \<notin> movieId ` set xs" by auto
    then show ?thesis using True by (simp add: count_none)
  next
    case False
    with Cons show ?thesis by auto
  qed
qed


text \<open>
  C7 (as amended).  For every movie and every two list names, \<open>moveMovie\<close> filters the
  movie's id out of the source list and then appends the movie to the target list only if
  the target does not hold its id; the third list is untouched.  (When source and target
  are the same list, the movie therefore ends up at its end.)  There is no failing path,
  whether or not the source holds the movie.  Afterwards the target holds the id, and
  holds it exactly once if it held no identifier twice before.
\<close>

theorem C7_move:
  "(fromList \<noteq> toList \<longrightarrow>
      getList fromList (moveMovie m fromList toList ls) =
        filter (\<lambda>x. movieId x \<noteq> movieId m) (getList fromList ls)
      \<and> getList toList (moveMovie m fromList toList ls) =
          (if movieId m \<in> movieId ` set (getList toList ls) then getList toList ls
           else getList toList ls @ [m]))
   \<and> (fromList = toList \<longrightarrow>
        getList toList (moveMovie m fromList toList ls) =
          filter (\<lambda>x. movieId x \<noteq> movieId m) (getList toList ls) @ [m])
   \<and> (\<forall>l. l \<noteq> fromList \<and> l \<noteq> toList \<longrightarrow> getList l (moveMovie m fromList toList ls) = getList l ls)
   \<and> movieId m \<in> movieId ` set (getList toList (moveMovie m fromList toList ls))
   \<and> (distinct (map movieId (getList toList ls)) \<longrightarrow>
        length (filter (\<lambda>x. movieId x = movieId m) (getList toList (moveMovie m fromList toList ls))) = 1)"
proof -
  have a: "fromList \<noteq> toList \<longrightarrow>
      getList fromList (moveMovie m fromList toList ls) =
        filter (\<lambda>x. movieId x \<noteq> movieId m) (getList fromList ls)
      \<and> getList toList (moveMovie m fromList toList ls) =
          (if movieId m \<in> movieId ` set (getList toList ls) then getList toList ls
           else getList toList ls @ [m])"
    by (simp add: moveMovie_target moveMovie_other)
  have gone: "movieId m \<notin> movieId ` set (filter (\<lambda>x. movieId x \<noteq> movieId m) xs)" for xs
    by auto
  have e: "fromList = toList \<longrightarrow>
        getList toList (moveMovie m fromList toList ls) =
          filter (\<lambda>x. movieId x \<noteq> movieId m) (getList toList ls) @ [m]"
    using gone [of "getList toList ls"] by (auto simp add: moveMovie_target Let_def)
  have b: "\<forall>l. l \<noteq> fromList \<and> l \<noteq> toList \<longrightarrow> getList l (moveMovie m fromList toList ls) = getList l ls"
    by (simp add: moveMovie_other)
  have c: "movieId m \<in> movieId ` set (getList toList (moveMovie m fromList toList ls))"
    by (simp add: moveMovie_target Let_def)
  have d: "distinct (map movieId (getList toList ls)) \<longrightarrow>
        length (filter (\<lambda>x. movieId x = movieId m) (getList toList (moveMovie m fromList toList ls))) = 1"
  proof
    assume dist: "distinct (map movieId (getList toList ls))"
    show "length (filter (\<lambda>x. movieId x = movieId m) (getList toList (moveMovie m fromList toList ls))) = 1"
    proof (cases "toList = fromList")
      case True
      have "filter (\<lambda>x. movieId x = movieId m) (filter (\<lambda>x. movieId x \<noteq> movieId m) (getList toList ls)) = []"
        by (simp add: filter_empty_conv)
      then show ?thesis using True e by simp
    next
      case False
      then show ?thesis using dist by (simp add: moveMovie_target Let_def count_once count_none)
    qed
  qed
  from a e b c d show ?thesis by blast
qed

theorem C7_move_witness:
  "getList Liked (moveMovie (sampleMovie 1) Liked Saved emptyLists) = []
   \<and> getList Saved (moveMovie (sampleMovie 1) Liked Saved emptyLists) = [sampleMovie 1]
   \<and> getList Disliked (moveMovie (sampleMovie 1) Liked Saved emptyLists) = []
   \<and> length (filter (\<lambda>x. movieId x = movieId (sampleMovie 1))
        (getList Saved (moveMovie (sampleMovie 1) Liked Saved emptyLists))) = 1"
  using C7_move [of Liked Saved "sampleMovie 1" emptyLists]
  by (auto simp add: emptyLists_def)

text \<open>C7 as stated fails: the lists are arrays, and \<open>handleStartSwiping\<close> appends the
  pre-selected movies without looking for their ids.  Starting twice with the same movie
  puts it in the liked list twice; moving it "from saved", where it is not, to liked then
  leaves it there twice.\<close>

theorem C7_duplicate_counterexample:
  "liked (userLists (run twiceLiked initialApp)) = [sampleMovie 1, sampleMovie 1]
   \<and> saved (userLists (run twiceLiked initialApp)) = []
   \<and> getList Liked (moveMovie (sampleMovie 1) Saved Liked (userLists (run twiceLiked initialApp)))
       = [sampleMovie 1, sampleMovie 1]
   \<and> length (filter (\<lambda>x. movieId x = movieId (sampleMovie 1))
        (getList Liked (moveMovie (sampleMovie 1) Saved Liked (userLists (run twiceLiked initialApp)))))
       = 2"
  by code_simp

lemma idsOf_classify:
  "idsOf l (classify m action ls) =
     (if (action = Like \<and> l = Liked) \<or> (action = Dislike \<and> l = Disliked) \<or> (action = Save \<and> l = Saved)
      then insert (movieId m) (idsOf l ls) else idsOf l ls)"
  by (cases action; cases l) (simp_all add: idsOf_def)

lemma idsOf_removeMovie:
  "idsOf l (removeMovie m fromList ls) =
     (if l = fromList then idsOf l ls - {movieId m} else idsOf l ls)"
  by (auto simp add: idsOf_def removeMovie_def getList_setList)

lemma idsOf_moveMovie:
  "idsOf l (moveMovie m fromList toList ls) =
     (if l = toList then insert (movieId m) (idsOf l ls)
      else if l = fromList then idsOf l ls - {movieId m}
      else idsOf l ls)"
  by (auto simp add: idsOf_def moveMovie_target moveMovie_other Let_def)

lemma exclusive_step:
  assumes "exclusive ls" and "admissible op ls"
  shows "exclusive (applyOp op ls)"
proof (cases op)
  case (Classify m action)
  with assms show ?thesis
    by (auto simp add: exclusive_def idsOf_classify simp del: classify.simps)
next
  case (Move m fromList toList)
  with assms show ?thesis
    by (cases fromList; cases toList) (auto simp add: exclusive_def idsOf_moveMovie)
next
  case (Remove m fromList)
  with assms show ?thesis
    by (cases fromList) (auto simp add: exclusive_def idsOf_removeMovie)
qed

lemma allAdmissible_take:
  "allAdmissible ops ls \<Longrightarrow> allAdmissible (take n ops) ls"
proof (induction ops arbitrary: ls n)
  case Nil
  then show ?case by simp
next
  case (Cons op ops)
  then show ?case by (cases n) simp_all
qed

lemma exclusive_applyOps:
  "exclusive ls \<Longrightarrow> allAdmissible ops ls \<Longrightarrow> exclusive (applyOps ops ls)"
proof (induction ops arbitrary: ls)
  case Nil
  then show ?case by simp
next
  case (Cons op ops)
  then show ?case by (simp add: exclusive_step)
qed


text \<open>
  C3 (as amended).  Starting from lists that share no identifier, after every prefix of a
  sequence of classify, move and remove operations in which each classified candidate is
  in no list yet and each moved movie is in its source list, no identifier is in more than
  one of the three lists.
\<close>

theorem C3_exclusive_lists:
  assumes "exclusive ls" and "allAdmissible ops ls"
  shows "exclusive (applyOps (take n ops) ls)"
  using assms by (simp add: exclusive_applyOps allAdmissible_take)

theorem C3_exclusive_lists_witness:
  "exclusive emptyLists
   \<and> allAdmissible [Classify (sampleMovie 1) Like, Classify (sampleMovie 2) Save,
                     Move (sampleMovie 1) Liked Disliked, Remove (sampleMovie 2) Saved] emptyLists
   \<and> exclusive (applyOps (take 3 [Classify (sampleMovie 1) Like, Classify (sampleMovie 2) Save,
                     Move (sampleMovie 1) Liked Disliked, Remove (sampleMovie 2) Saved]) emptyLists)"
  using C3_exclusive_lists [of emptyLists "[Classify (sampleMovie 1) Like, Classify (sampleMovie 2) Save,
                     Move (sampleMovie 1) Liked Disliked, Remove (sampleMovie 2) Saved]" 3]
  by (simp add: exclusive_def idsOf_def emptyLists_def sampleMovie_def moveMovie_def removeMovie_def Let_def)

text \<open>C3 as stated fails: a move names its source list freely.  After a movie is disliked,
  moving it "from liked" to saved removes nothing and appends it to saved, so it is in two
  lists.\<close>

theorem C3_move_counterexample:
  "\<not> exclusive (applyOps [Classify (sampleMovie 1) Dislike, Move (sampleMovie 1) Liked Saved] emptyLists)
   \<and> saved (applyOps [Classify (sampleMovie 1) Dislike, Move (sampleMovie 1) Liked Saved] emptyLists) = [sampleMovie 1]
   \<and> disliked (applyOps [Classify (sampleMovie 1) Dislike, Move (sampleMovie 1) Liked Saved] emptyLists) = [sampleMovie 1]"
  by (simp add: exclusive_def idsOf_def emptyLists_def sampleMovie_def moveMovie_def Let_def)

text \<open>Keyed lists: a list that holds no identifier twice stays so under every move and
  removal, and under the classification of a candidate it does not hold.\<close>

lemma keyed_getList: "keyed ls = (\<forall>l. distinct (map movieId (getList l ls)))"
proof
  assume "keyed ls"
  then show "\<forall>l. distinct (map movieId (getList l ls))"
    by (auto simp add: keyed_def) (case_tac l; simp)
next
  assume h: "\<forall>l. distinct (map movieId (getList l ls))"
  from h [rule_format, of Liked] h [rule_format, of Saved] h [rule_format, of Disliked]
  show "keyed ls" by (simp add: keyed_def)
qed

lemma distinct_filter_ids: "distinct (map movieId xs) \<Longrightarrow> distinct (map movieId (filter P xs))"
  by (simp add: distinct_map_filter)

lemma keyed_moveMovie: "keyed ls \<Longrightarrow> keyed (moveMovie m fromList toList ls)"
proof -
  assume k: "keyed ls"
  have "distinct (map movieId (getList l (moveMovie m fromList toList ls)))" for l
  proof (cases "l = toList")
    case True
    then show ?thesis using k [unfolded keyed_getList, rule_format, of toList]
      by (auto simp add: moveMovie_target Let_def distinct_filter_ids)
  next
    case False
    then show ?thesis using k [unfolded keyed_getList, rule_format, of l]
      by (auto simp add: moveMovie_other distinct_filter_ids)
  qed
  then show ?thesis by (simp add: keyed_getList)
qed

lemma keyed_removeMovie: "keyed ls \<Longrightarrow> keyed (removeMovie m fromList ls)"
  by (cases fromList) (simp_all add: keyed_def removeMovie_def distinct_filter_ids)

lemma keyed_classify:
  "keyed ls \<Longrightarrow> admissible (Classify m action) ls \<Longrightarrow> keyed (classify m action ls)"
  by (cases action) (auto simp add: keyed_def idsOf_def)

lemma keyed_applyOps:
  "keyed ls \<Longrightarrow> allAdmissible ops ls \<Longrightarrow> keyed (applyOps ops ls)"
proof (induction ops arbitrary: ls)
  case Nil
  then show ?case by simp
next
  case (Cons op ops)
  have "keyed (applyOp op ls)"
    using Cons.prems
    by (cases op) (simp_all add: keyed_moveMovie keyed_removeMovie keyed_classify del: classify.simps admissible.simps)
  then show ?case using Cons by simp
qed

section \<open>The retry budget\<close>

lemma budgetInv_begin:
  "budgetInv a \<Longrightarrow> budgetInv (fst (fetchNextMovie_begin c a))"
  by (auto simp add: budgetInv_def fetchNextMovie_begin_def Let_def maxFetchAttempts_def)

lemma budgetInv_effect:
  "budgetInv a \<Longrightarrow> budgetInv (fst (fetchEffect a))"
  by (simp add: fetchEffect_def budgetInv_begin)

lemma budgetInv_resume:
  assumes "budgetInv a" and "pending a = Some (c, ex)"
  shows "budgetInv (fetchNextMovie_resume c ex out (a\<lparr>pending := None\<rparr>))"
  using assms
  by (auto simp add: budgetInv_def fetchNextMovie_resume_def Let_def maxFetchAttempts_def
      split: Outcome.splits option.splits)

lemma budgetInv_fields:
  "budgetInv a \<Longrightarrow> fetchAttemptCount b = fetchAttemptCount a \<Longrightarrow> pending b = pending a \<Longrightarrow>
   currentMovie b = None \<or> currentMovie b = currentMovie a \<Longrightarrow> budgetInv b"
  by (auto simp add: budgetInv_def)

lemma budgetInv_handleAction:
  "budgetInv a \<Longrightarrow> budgetInv (fst (handleAction action a))"
proof -
  assume inv: "budgetInv a"
  show ?thesis
  proof (cases "currentMovie a")
    case None
    then show ?thesis using inv by (simp add: handleAction_def)
  next
    case (Some m)
    show ?thesis
    proof (cases "isLoading a")
      case True
      then show ?thesis using inv Some by (simp add: handleAction_def)
    next
      case False
      let ?a3 = "(if length (recentlyFetchedIds a) > 30
                  then a\<lparr>currentMovie := None, userLists := classify m action (userLists a),
                         recentlyFetchedIds := slice_last 15 (recentlyFetchedIds a)\<rparr>
                  else a\<lparr>currentMovie := None, userLists := classify m action (userLists a)\<rparr>)"
      have "budgetInv ?a3" using inv by (auto intro: budgetInv_fields [of a])
      then have "budgetInv (fst (fetchNextMovie_begin (Render.truncate a) ?a3))"
        by (rule budgetInv_begin)
      moreover have "fst (handleAction action a) = fst (fetchNextMovie_begin (Render.truncate a) ?a3)"
        using Some False by (simp add: handleAction_def Let_def split: prod.splits)
      ultimately show ?thesis by simp
    qed
  qed
qed

lemma budgetInv_resetMovies:
  "budgetInv (fst (resetMovies a))"
proof -
  have "budgetInv (a\<lparr>currentMovie := None, userVector := None,
                 recentlyFetchedIds := [], fetchAttemptCount := 0,
                 filters := \<lparr>genres = [], languages = [], yearRange = movieYearRange\<rparr>\<rparr>)"
    by (simp add: budgetInv_def maxFetchAttempts_def)
  then show ?thesis by (simp add: resetMovies_def Let_def budgetInv_begin)
qed

lemma budgetInv_step:
  assumes "budgetInv a"
  shows "budgetInv (step e a)"
proof (cases e)
  case (StartSwiping ms)
  have "budgetInv (handleStartSwiping ms a)"
    using assms by (auto simp add: handleStartSwiping_def intro: budgetInv_fields [of a])
  then show ?thesis using StartSwiping by (simp add: budgetInv_effect)
next
  case GoHome
  then show ?thesis using assms by (auto simp add: handleGoHome_def intro: budgetInv_fields [of a])
next
  case (SetView v)
  have "budgetInv (a\<lparr>currentView := v\<rparr>)" using assms by (auto intro: budgetInv_fields [of a])
  then show ?thesis using SetView assms by (simp add: budgetInv_effect)
next
  case (SetFilters f)
  have "budgetInv (a\<lparr>filters := f\<rparr>)" using assms by (auto intro: budgetInv_fields [of a])
  then show ?thesis using SetFilters by (simp add: budgetInv_effect)
next
  case (Response out)
  then show ?thesis using assms by (auto simp add: budgetInv_resume split: option.splits)
next
  case TimerFire
  show ?thesis
  proof (cases "fetchTimeoutRef a")
    case None
    then show ?thesis using TimerFire assms by simp
  next
    case (Some p)
    have "budgetInv (a\<lparr>fetchTimeoutRef := None\<rparr>)" using assms by (auto intro: budgetInv_fields [of a])
    then show ?thesis using TimerFire Some by (simp add: budgetInv_begin split: prod.splits)
  qed
next
  case (UserAction action)
  then show ?thesis using assms by (simp add: budgetInv_handleAction)
next
  case (MoveMovie m f t)
  then show ?thesis using assms by (auto simp add: handleMoveMovie_def intro: budgetInv_fields [of a])
next
  case (RemoveMovie m f)
  then show ?thesis using assms by (auto simp add: handleRemoveMovie_def intro: budgetInv_fields [of a])
next
  case Reset
  then show ?thesis by (simp add: budgetInv_effect budgetInv_resetMovies)
qed

lemma budgetInv_run: "budgetInv a \<Longrightarrow> budgetInv (run es a)"
  by (induction es arbitrary: a) (simp_all add: budgetInv_step)

lemma budgetInv_initial: "budgetInv initialApp"
  by (simp add: budgetInv_def initialApp_def maxFetchAttempts_def)

section \<open>Single flight\<close>

lemma flightInv_begin:
  "flightInv a \<Longrightarrow> budgetInv a \<Longrightarrow> flightInv (fst (fetchNextMovie_begin c a))"
  by (auto simp add: flightInv_def budgetInv_def fetchNextMovie_begin_def Let_def)

lemma flightInv_effect:
  "flightInv a \<Longrightarrow> budgetInv a \<Longrightarrow> flightInv (fst (fetchEffect a))"
  by (simp add: fetchEffect_def flightInv_begin)

lemma resume_pending: "pending (fetchNextMovie_resume c ex out a) = pending a"
  by (cases out) (simp_all add: fetchNextMovie_resume_def Let_def split: option.splits)

lemma flightInv_fields:
  "flightInv a \<Longrightarrow> pending b = pending a \<Longrightarrow> isLoading b = isLoading a \<Longrightarrow>
   fetchTimeoutRef b = fetchTimeoutRef a \<or> fetchTimeoutRef b = None \<Longrightarrow> flightInv b"
  by (auto simp add: flightInv_def)

lemma handleAction_begin:
  "currentMovie a = Some m \<Longrightarrow> \<not> isLoading a \<Longrightarrow>
   fst (handleAction action a) =
     fst (fetchNextMovie_begin (Render.truncate a)
       (if length (recentlyFetchedIds a) > 30
        then a\<lparr>currentMovie := None, userLists := classify m action (userLists a),
               recentlyFetchedIds := slice_last 15 (recentlyFetchedIds a)\<rparr>
        else a\<lparr>currentMovie := None, userLists := classify m action (userLists a)\<rparr>))"
  by (simp add: handleAction_def Let_def split: prod.splits)

lemma flightInv_handleAction:
  assumes "flightInv a" and "budgetInv a"
  shows "flightInv (fst (handleAction action a))"
proof (cases "currentMovie a")
  case None
  then show ?thesis using assms by (simp add: handleAction_def)
next
  case (Some m)
  show ?thesis
  proof (cases "isLoading a")
    case True
    then show ?thesis using assms Some by (simp add: handleAction_def)
  next
    case False
    let ?a3 = "(if length (recentlyFetchedIds a) > 30
        then a\<lparr>currentMovie := None, userLists := classify m action (userLists a),
               recentlyFetchedIds := slice_last 15 (recentlyFetchedIds a)\<rparr>
        else a\<lparr>currentMovie := None, userLists := classify m action (userLists a)\<rparr>)"
    have "flightInv ?a3" using assms(1) by (auto intro: flightInv_fields [of a])
    moreover have "budgetInv ?a3" using assms(2) by (auto intro: budgetInv_fields [of a])
    ultimately have "flightInv (fst (fetchNextMovie_begin (Render.truncate a) ?a3))"
      by (rule flightInv_begin)
    then show ?thesis using handleAction_begin [OF Some False, of action] by simp
  qed
qed

lemma flightInv_step:
  assumes "flightInv a" and "budgetInv a"
  shows "flightInv (step e a)"
proof (cases e)
  case (StartSwiping ms)
  have "flightInv (handleStartSwiping ms a)"
    using assms(1) by (auto simp add: handleStartSwiping_def intro: flightInv_fields [of a])
  moreover have "budgetInv (handleStartSwiping ms a)"
    using assms(2) by (auto simp add: handleStartSwiping_def intro: budgetInv_fields [of a])
  ultimately show ?thesis using StartSwiping by (simp add: flightInv_effect)
next
  case GoHome
  then show ?thesis using assms(1)
    by (auto simp add: handleGoHome_def intro: flightInv_fields [of a])
next
  case (SetView v)
  have "flightInv (a\<lparr>currentView := v\<rparr>)" using assms(1) by (auto intro: flightInv_fields [of a])
  moreover have "budgetInv (a\<lparr>currentView := v\<rparr>)" using assms(2) by (auto intro: budgetInv_fields [of a])
  ultimately show ?thesis using SetView assms(1) by (simp add: flightInv_effect)
next
  case (SetFilters f)
  have "flightInv (a\<lparr>filters := f\<rparr>)" using assms(1) by (auto intro: flightInv_fields [of a])
  moreover have "budgetInv (a\<lparr>filters := f\<rparr>)" using assms(2) by (auto intro: budgetInv_fields [of a])
  ultimately show ?thesis using SetFilters by (simp add: flightInv_effect)
next
  case (Response out)
  then show ?thesis using assms(1)
    by (auto simp add: flightInv_def resume_pending split: option.splits)
next
  case TimerFire
  show ?thesis
  proof (cases "fetchTimeoutRef a")
    case None
    then show ?thesis using TimerFire assms by simp
  next
    case (Some t)
    have "flightInv (a\<lparr>fetchTimeoutRef := None\<rparr>)" using assms(1) by (auto intro: flightInv_fields [of a])
    moreover have "budgetInv (a\<lparr>fetchTimeoutRef := None\<rparr>)"
      using assms(2) by (auto intro: budgetInv_fields [of a])
    ultimately show ?thesis using TimerFire Some by (simp add: flightInv_begin split: prod.splits)
  qed
next
  case (UserAction action)
  then show ?thesis using assms by (simp add: flightInv_handleAction)
next
  case (MoveMovie m f t)
  then show ?thesis using assms(1)
    by (auto simp add: handleMoveMovie_def intro: flightInv_fields [of a])
next
  case (RemoveMovie m f)
  then show ?thesis using assms(1)
    by (auto simp add: handleRemoveMovie_def intro: flightInv_fields [of a])
next
  case Reset
  have r: "flightInv (fst (resetMovies a))"
  proof -
    have "flightInv (a\<lparr>currentMovie := None, userVector := None,
                 recentlyFetchedIds := [], fetchAttemptCount := 0,
                 filters := \<lparr>genres = [], languages = [], yearRange = movieYearRange\<rparr>\<rparr>)"
      using assms(1) by (auto intro: flightInv_fields [of a])
    moreover have "budgetInv (a\<lparr>currentMovie := None, userVector := None,
                 recentlyFetchedIds := [], fetchAttemptCount := 0,
                 filters := \<lparr>genres = [], languages = [], yearRange = movieYearRange\<rparr>\<rparr>)"
      by (simp add: budgetInv_def maxFetchAttempts_def)
    ultimately show ?thesis by (simp add: resetMovies_def Let_def flightInv_begin)
  qed
  then show ?thesis using Reset by (simp add: flightInv_effect budgetInv_resetMovies)
qed

lemma flightInv_run:
  "flightInv a \<Longrightarrow> budgetInv a \<Longrightarrow> flightInv (run es a)"
  by (induction es arbitrary: a) (simp_all add: flightInv_step budgetInv_step)

lemma flightInv_initial: "flightInv initialApp"
  by (simp add: flightInv_def initialApp_def)

lemma begin_suppressed: "isLoading c \<Longrightarrow> fetchNextMovie_begin c a = (a, None)"
  by (simp add: fetchNextMovie_begin_def)

lemma effect_suppressed: "isLoading a \<Longrightarrow> fetchEffect a = (a, None)"
  by (simp add: fetchEffect_def begin_suppressed Render.truncate_def)

text \<open>Single flight: while a request is pending, no event but its response touches it,
  so no second request is sent.\<close>

lemma single_flight:
  assumes "flightInv a" and "pending a = Some p"
  shows "(\<exists>out. e = Response out) \<or> pending (step e a) = Some p"
proof -
  from assms have busy: "isLoading a" and quiet: "fetchTimeoutRef a = None"
    by (simp_all add: flightInv_def)
  show ?thesis
  proof (cases e)
    case (StartSwiping ms)
    have "isLoading (handleStartSwiping ms a)" using busy by (simp add: handleStartSwiping_def)
    then show ?thesis using StartSwiping assms(2)
      by (simp add: effect_suppressed handleStartSwiping_def)
  next
    case GoHome
    then show ?thesis using assms(2) by (simp add: handleGoHome_def)
  next
    case (SetView v)
    have "isLoading (a\<lparr>currentView := v\<rparr>)" using busy by simp
    then show ?thesis using SetView assms(2) by (simp add: effect_suppressed)
  next
    case (SetFilters f)
    have "isLoading (a\<lparr>filters := f\<rparr>)" using busy by simp
    then show ?thesis using SetFilters assms(2) by (simp add: effect_suppressed)
  next
    case (Response out)
    then show ?thesis by simp
  next
    case TimerFire
    then show ?thesis using quiet assms(2) by simp
  next
    case (UserAction action)
    then show ?thesis using busy assms(2) by (simp add: handleAction_def split: option.splits)
  next
    case (MoveMovie m f t)
    then show ?thesis using assms(2) by (simp add: handleMoveMovie_def)
  next
    case (RemoveMovie m f)
    then show ?thesis using assms(2) by (simp add: handleRemoveMovie_def)
  next
    case Reset
    have c: "isLoading (Render.truncate a)" using busy by (simp add: Render.truncate_def)
    have r: "fst (resetMovies a) = a\<lparr>currentMovie := None, userVector := None,
                 recentlyFetchedIds := [], fetchAttemptCount := 0,
                 filters := \<lparr>genres = [], languages = [], yearRange = movieYearRange\<rparr>\<rparr>"
      using c by (simp add: resetMovies_def Let_def begin_suppressed)
    have "isLoading (fst (resetMovies a))" using busy by (simp add: r)
    then show ?thesis using Reset assms(2) by (simp add: effect_suppressed) (simp add: r)
  qed
qed

text \<open>A candidate that comes to be displayed is none of the ids that were sent as
  excluded: the lists of the closure that asked, and the window.\<close>

lemma displayed_is_new:
  assumes "pending a = Some (c, ex)"
    and "currentMovie (step (Response out) a) = Some m"
    and "currentMovie a \<noteq> Some m"
  shows "movieId m \<notin> set ex"
  using assms
  by (cases out) (auto simp add: fetchNextMovie_resume_def Let_def split: if_splits option.splits)

section \<open>Five duplicates in a row\<close>

lemma displaying_reachable:
  "run [StartSwiping [], Response (offers m)] initialApp = displaying m"
  by (simp add: displaying_def initialApp_def handleStartSwiping_def fetchEffect_def
      fetchNextMovie_begin_def fetchNextMovie_resume_def Let_def maxFetchAttempts_def offers_def
      truthy_def set_add_def Render.truncate_def getAllSeenIds_def)

lemma resume_duplicate:
  assumes "candidateOf out = Some m" and "movieId m \<in> set ex"
  shows "fetchNextMovie_resume c ex out a =
     (if fetchAttemptCount a + 1 \<ge> maxFetchAttempts
      then a\<lparr>recentlyFetchedIds := set_add (movieId m) (recentlyFetchedIds a),
             fetchAttemptCount := fetchAttemptCount a + 1, isLoading := False, currentMovie := None\<rparr>
      else a\<lparr>recentlyFetchedIds := set_add (movieId m) (recentlyFetchedIds a),
             fetchAttemptCount := fetchAttemptCount a + 1, isLoading := False,
             fetchTimeoutRef := Some (min (200 * 2 ^ (fetchAttemptCount a + 1 - 1)) 2000, c)\<rparr>)"
  using assms
  by (cases out) (auto simp add: fetchNextMovie_resume_def Let_def split: if_splits)

lemma duplicateResponse_candidate:
  "duplicateResponse (Response out) a \<Longrightarrow> pending a = Some (c, ex) \<Longrightarrow>
   \<exists>m. candidateOf out = Some m \<and> movieId m \<in> set ex"
  by (auto split: option.splits)

lemma retryCycle_allDuplicates:
  assumes "\<not> isLoading c"
    and "pending a = Some (c, ex)"
    and "fetchTimeoutRef a = None"
    and "fetchAttemptCount a + length outs = 5"
    and "outs \<noteq> []"
    and "allDuplicates outs a"
  shows "\<exists>a'. retryCycle (outs @ rest) a =
            (map backoff [fetchAttemptCount a + 1 ..< 5], length outs, a')
          \<and> currentMovie a' = None \<and> fetchTimeoutRef a' = None \<and> pending a' = None
          \<and> \<not> isLoading a' \<and> fetchAttemptCount a' = 5 \<and> userLists a' = userLists a"
  using assms
proof (induction outs arbitrary: a ex)
  case Nil
  then show ?case by simp
next
  case (Cons out outs)
  from Cons.prems(6) have dup: "duplicateResponse (Response out) a" by simp
  from duplicateResponse_candidate [OF dup Cons.prems(2)]
  obtain m where m: "candidateOf out = Some m" "movieId m \<in> set ex"
    by auto
  show ?case
  proof (cases "outs = []")
    case True
    with Cons.prems have k: "fetchAttemptCount a = 4" by simp
    show ?thesis using True k Cons.prems(2,3) m
      by (simp add: resume_duplicate maxFetchAttempts_def)
  next
    case False
    with Cons.prems have k: "fetchAttemptCount a < 4" by (cases outs) auto
    let ?a1 = "step (Response out) a"
    have a1: "?a1 = a\<lparr>pending := None, recentlyFetchedIds := set_add (movieId m) (recentlyFetchedIds a),
             fetchAttemptCount := fetchAttemptCount a + 1, isLoading := False,
             fetchTimeoutRef := Some (backoff (fetchAttemptCount a + 1), c)\<rparr>"
      using k Cons.prems(2) m by (simp add: resume_duplicate maxFetchAttempts_def backoff_def)
    let ?ex2 = "getAllSeenIds c @ set_add (movieId m) (recentlyFetchedIds a)"
    let ?a2 = "step TimerFire ?a1"
    have a2: "?a2 = a\<lparr>recentlyFetchedIds := set_add (movieId m) (recentlyFetchedIds a),
             fetchAttemptCount := fetchAttemptCount a + 1,
             fetchTimeoutRef := None, isLoading := True, pending := Some (c, ?ex2)\<rparr>"
      unfolding a1 using k Cons.prems(1)
      by (simp add: fetchNextMovie_begin_def Let_def maxFetchAttempts_def)
    have "\<exists>a'. retryCycle (outs @ rest) ?a2 =
            (map backoff [fetchAttemptCount ?a2 + 1 ..< 5], length outs, a')
          \<and> currentMovie a' = None \<and> fetchTimeoutRef a' = None \<and> pending a' = None
          \<and> \<not> isLoading a' \<and> fetchAttemptCount a' = 5 \<and> userLists a' = userLists ?a2"
    proof (rule Cons.IH [of ?a2 ?ex2])
      show "\<not> isLoading c" by (rule Cons.prems(1))
      show "pending ?a2 = Some (c, ?ex2)" by (simp add: a2 del: step.simps)
      show "fetchTimeoutRef ?a2 = None" by (simp add: a2 del: step.simps)
      show "fetchAttemptCount ?a2 + length outs = 5"
        using Cons.prems(4) by (simp add: a2 del: step.simps)
      show "outs \<noteq> []" by (rule False)
      show "allDuplicates outs ?a2" using Cons.prems(6) by (simp del: step.simps)
    qed
    then obtain a' where a': "retryCycle (outs @ rest) ?a2 =
            (map backoff [fetchAttemptCount a + 2 ..< 5], length outs, a')"
          "currentMovie a' = None" "fetchTimeoutRef a' = None" "pending a' = None"
          "\<not> isLoading a'" "fetchAttemptCount a' = 5" "userLists a' = userLists a"
      by (auto simp add: a2 simp del: step.simps)
    have up: "[fetchAttemptCount a + 1 ..< 5] = (fetchAttemptCount a + 1) # [fetchAttemptCount a + 2 ..< 5]"
      using k by (simp add: upt_conv_Cons)
    have "retryCycle ((out # outs) @ rest) a =
            (backoff (fetchAttemptCount a + 1) # map backoff [fetchAttemptCount a + 2 ..< 5],
             Suc (length outs), a')"
    proof -
      have t: "fetchTimeoutRef ?a1 = Some (backoff (fetchAttemptCount a + 1), c)"
        unfolding a1 by simp
      show ?thesis
        by (simp only: append_Cons retryCycle.simps Cons.prems(2) option.case Let_def t
            prod.case a'(1))
    qed
    then show ?thesis using a' up by simp
  qed
qed

text \<open>
  C5 (as amended).  The attempt counter is at most 5 in every state the component reaches.
  It is set to 0 when a candidate is accepted and on a fatal error (rejected call or error
  response).  The duplicate that uses up the budget leaves it at 5, with no candidate and no
  new timer; it is set to 0 by the next call of \<open>fetchNextMovie\<close>, which then empties the
  rolling window and sends nothing, or by \<open>resetMovies\<close>.
\<close>

theorem C5_attempt_counter:
  "fetchAttemptCount (run es initialApp) \<le> 5
   \<and> (pending a = Some (c, ex) \<and> candidateOf out = Some m \<and> movieId m \<notin> set ex \<longrightarrow>
        fetchAttemptCount (step (Response out) a) = 0)
   \<and> (pending a = Some (c, ex) \<and> (out = Rejected \<or> (\<exists>r. out = Resolved r \<and> truthy (error r))) \<longrightarrow>
        fetchAttemptCount (step (Response out) a) = 0)
   \<and> (pending a = Some (c, ex) \<and> candidateOf out = Some m \<and> movieId m \<in> set ex
        \<and> fetchAttemptCount a = 4 \<longrightarrow>
        fetchAttemptCount (step (Response out) a) = 5
        \<and> currentMovie (step (Response out) a) = None
        \<and> fetchTimeoutRef (step (Response out) a) = fetchTimeoutRef a)
   \<and> (\<not> isLoading c \<and> fetchAttemptCount a \<ge> 5 \<longrightarrow>
        fetchAttemptCount (fst (fetchNextMovie_begin c a)) = 0
        \<and> recentlyFetchedIds (fst (fetchNextMovie_begin c a)) = []
        \<and> snd (fetchNextMovie_begin c a) = None)
   \<and> fetchAttemptCount (fst (resetMovies a)) = 0"
proof -
  have "budgetInv (run es initialApp)" by (simp add: budgetInv_run budgetInv_initial)
  then have p1: "fetchAttemptCount (run es initialApp) \<le> 5"
    by (simp add: budgetInv_def maxFetchAttempts_def)
  have p2: "pending a = Some (c, ex) \<and> candidateOf out = Some m \<and> movieId m \<notin> set ex \<longrightarrow>
        fetchAttemptCount (step (Response out) a) = 0"
    by (cases out) (auto simp add: fetchNextMovie_resume_def Let_def split: if_splits)
  have p3: "pending a = Some (c, ex) \<and> (out = Rejected \<or> (\<exists>r. out = Resolved r \<and> truthy (error r))) \<longrightarrow>
        fetchAttemptCount (step (Response out) a) = 0"
    by (auto simp add: fetchNextMovie_resume_def)
  have p4: "pending a = Some (c, ex) \<and> candidateOf out = Some m \<and> movieId m \<in> set ex
        \<and> fetchAttemptCount a = 4 \<longrightarrow>
        fetchAttemptCount (step (Response out) a) = 5
        \<and> currentMovie (step (Response out) a) = None
        \<and> fetchTimeoutRef (step (Response out) a) = fetchTimeoutRef a"
    by (auto simp add: resume_duplicate maxFetchAttempts_def)
  have p5: "\<not> isLoading c \<and> fetchAttemptCount a \<ge> 5 \<longrightarrow>
        fetchAttemptCount (fst (fetchNextMovie_begin c a)) = 0
        \<and> recentlyFetchedIds (fst (fetchNextMovie_begin c a)) = []
        \<and> snd (fetchNextMovie_begin c a) = None"
    by (simp add: fetchNextMovie_begin_def Let_def maxFetchAttempts_def)
  have p6: "fetchAttemptCount (fst (resetMovies a)) = 0"
    by (simp add: resetMovies_def fetchNextMovie_begin_def Let_def maxFetchAttempts_def)
  from p1 p2 p3 p4 p5 p6 show ?thesis by blast
qed

lemma awaiting_pending:
  "pending (awaiting m) = Some (Render.truncate (displaying m), [movieId m])"
  by (simp add: awaiting_def displaying_def initialApp_def fetchNextMovie_begin_def Let_def
      maxFetchAttempts_def getAllSeenIds_def Render.truncate_def)

theorem C5_attempt_counter_witness:
  "fetchAttemptCount (run abortRun initialApp) \<le> 5
   \<and> fetchAttemptCount (step (Response (offers (sampleMovie 8))) (awaiting (sampleMovie 7))) = 0
   \<and> fetchAttemptCount (step (Response (Resolved noMoviesResponse)) (awaiting (sampleMovie 7))) = 0
   \<and> fetchAttemptCount (step (Response (offers (sampleMovie 7)))
         ((awaiting (sampleMovie 7))\<lparr>fetchAttemptCount := 4\<rparr>)) = 5
   \<and> fetchAttemptCount (fst (fetchNextMovie_begin (Render.truncate initialApp)
         (initialApp\<lparr>fetchAttemptCount := 5\<rparr>))) = 0"
proof -
  let ?c = "Render.truncate (displaying (sampleMovie 7))"
  have pend: "pending (awaiting (sampleMovie 7)) = Some (?c, [7])"
    by (simp add: awaiting_pending sampleMovie_def)
  have pend4: "pending ((awaiting (sampleMovie 7))\<lparr>fetchAttemptCount := 4\<rparr>) = Some (?c, [7])"
    by (simp add: pend)
  have c8: "candidateOf (offers (sampleMovie 8)) = Some (sampleMovie 8)"
    and c7: "candidateOf (offers (sampleMovie 7)) = Some (sampleMovie 7)"
    by (simp_all add: offers_def truthy_def)
  have err: "truthy (error noMoviesResponse)" by (simp add: noMoviesResponse_def truthy_def)
  have idle: "\<not> isLoading (Render.truncate initialApp)"
    by (simp add: initialApp_def Render.truncate_def)
  have w1: "fetchAttemptCount (run abortRun initialApp) \<le> 5"
    using C5_attempt_counter [of abortRun] by simp
  have w2: "fetchAttemptCount (step (Response (offers (sampleMovie 8))) (awaiting (sampleMovie 7))) = 0"
    using C5_attempt_counter [of abortRun "awaiting (sampleMovie 7)" ?c "[7]"
        "offers (sampleMovie 8)" "sampleMovie 8"] pend c8
    by (simp add: sampleMovie_def)
  have w3: "fetchAttemptCount (step (Response (Resolved noMoviesResponse)) (awaiting (sampleMovie 7))) = 0"
    using C5_attempt_counter [of abortRun "awaiting (sampleMovie 7)" ?c "[7]"
        "Resolved noMoviesResponse" "sampleMovie 8"] pend err
    by simp
  have w4: "fetchAttemptCount (step (Response (offers (sampleMovie 7)))
         ((awaiting (sampleMovie 7))\<lparr>fetchAttemptCount := 4\<rparr>)) = 5"
    using C5_attempt_counter [of abortRun "(awaiting (sampleMovie 7))\<lparr>fetchAttemptCount := 4\<rparr>" ?c "[7]"
        "offers (sampleMovie 7)" "sampleMovie 7"] pend4 c7
    by (simp add: sampleMovie_def)
  have w5: "fetchAttemptCount (fst (fetchNextMovie_begin (Render.truncate initialApp)
         (initialApp\<lparr>fetchAttemptCount := 5\<rparr>))) = 0"
    using C5_attempt_counter [of abortRun "initialApp\<lparr>fetchAttemptCount := 5\<rparr>" "Render.truncate initialApp"] idle
    by simp
  from w1 w2 w3 w4 w5 show ?thesis by simp
qed

text \<open>C5 as stated fails at the abort: after five duplicates in a row the cycle has ended
  (no candidate, nothing pending) and the counter is 5, not 0.\<close>

theorem C5_abort_counterexample:
  "fetchAttemptCount (run abortRun initialApp) = 5
   \<and> fetchAttemptCount (run abortRun initialApp) \<noteq> 0
   \<and> currentMovie (run abortRun initialApp) = None
   \<and> pending (run abortRun initialApp) = None
   \<and> \<not> isLoading (run abortRun initialApp)"
  by code_simp

text \<open>
  C1 (as amended).  If a fetch cycle starts with the attempt counter at 0, and each of the
  next five responses offers a candidate whose id is in the exclusion list sent with the
  request it answers, then exactly five requests are answered, whatever further responses
  stand ready; the timers between them run 200, 400, 800 and 1600 ms, each
  \<open>min (200 * 2 ^ (attempt - 1)) 2000\<close> for the counter just incremented; after the fifth
  response no candidate is displayed, no timer is set and no request is pending.
\<close>

theorem C1_duplicate_budget:
  assumes "\<not> isLoading c" and "fetchAttemptCount a = 0" and "length outs = 5"
    and "allDuplicates outs (fst (fetchNextMovie_begin c a))"
  shows "fst (retryCycle (outs @ rest) (fst (fetchNextMovie_begin c a))) = [200, 400, 800, 1600]
       \<and> fst (retryCycle (outs @ rest) (fst (fetchNextMovie_begin c a))) = map backoff [1, 2, 3, 4]
       \<and> fst (snd (retryCycle (outs @ rest) (fst (fetchNextMovie_begin c a)))) = 5
       \<and> currentMovie (snd (snd (retryCycle (outs @ rest) (fst (fetchNextMovie_begin c a))))) = None
       \<and> fetchTimeoutRef (snd (snd (retryCycle (outs @ rest) (fst (fetchNextMovie_begin c a))))) = None
       \<and> pending (snd (snd (retryCycle (outs @ rest) (fst (fetchNextMovie_begin c a))))) = None
       \<and> \<not> isLoading (snd (snd (retryCycle (outs @ rest) (fst (fetchNextMovie_begin c a)))))"
proof -
  let ?ex = "getAllSeenIds c @ recentlyFetchedIds a"
  let ?a0 = "a\<lparr>fetchTimeoutRef := None, isLoading := True, pending := Some (c, ?ex)\<rparr>"
  have start: "fst (fetchNextMovie_begin c a) = ?a0"
    using assms(1,2) by (simp add: begin_request maxFetchAttempts_def)
  have "\<exists>a'. retryCycle (outs @ rest) ?a0 =
            (map backoff [fetchAttemptCount ?a0 + 1 ..< 5], length outs, a')
          \<and> currentMovie a' = None \<and> fetchTimeoutRef a' = None \<and> pending a' = None
          \<and> \<not> isLoading a' \<and> fetchAttemptCount a' = 5 \<and> userLists a' = userLists ?a0"
  proof (rule retryCycle_allDuplicates [of c ?a0 ?ex])
    show "\<not> isLoading c" by (rule assms(1))
    show "pending ?a0 = Some (c, ?ex)" by simp
    show "fetchTimeoutRef ?a0 = None" by simp
    show "fetchAttemptCount ?a0 + length outs = 5" using assms(2,3) by simp
    show "outs \<noteq> []" using assms(3) by auto
    show "allDuplicates outs ?a0" using assms(4) by (simp only: start)
  qed
  then obtain a' where a': "retryCycle (outs @ rest) ?a0 = (map backoff [1 ..< 5], 5, a')"
      "currentMovie a' = None" "fetchTimeoutRef a' = None" "pending a' = None" "\<not> isLoading a'"
    using assms(2,3) by auto
  have "[1 ..< 5] = [1, 2, 3, 4::nat]" by (simp add: upt_conv_Cons)
  moreover have "map backoff [1, 2, 3, 4] = [200, 400, 800, 1600]" by (simp add: backoff_def)
  ultimately show ?thesis using a' by (simp add: start)
qed

theorem C1_duplicate_budget_witness:
  "allDuplicates staleOffers (awaiting (sampleMovie 7))
   \<and> fst (retryCycle (staleOffers @ [offers (sampleMovie 8)]) (awaiting (sampleMovie 7)))
       = [200, 400, 800, 1600]
   \<and> fst (snd (retryCycle (staleOffers @ [offers (sampleMovie 8)]) (awaiting (sampleMovie 7)))) = 5
   \<and> currentMovie (snd (snd (retryCycle (staleOffers @ [offers (sampleMovie 8)])
         (awaiting (sampleMovie 7))))) = None"
proof -
  have h1: "\<not> isLoading (Render.truncate (displaying (sampleMovie 7)))"
    by (simp add: displaying_def initialApp_def Render.truncate_def)
  have h2: "fetchAttemptCount (displaying (sampleMovie 7)) = 0"
    by (simp add: displaying_def initialApp_def)
  have h3: "length staleOffers = 5" by (simp add: staleOffers_def)
  have h4: "allDuplicates staleOffers (awaiting (sampleMovie 7))"
    by code_simp
  from C1_duplicate_budget [OF h1 h2 h3 h4 [unfolded awaiting_def], of "[offers (sampleMovie 8)]"] h4
  show ?thesis by (simp add: awaiting_def)
qed

text \<open>C1 as stated fails twice.  Five duplicates in a row are separated by four delays,
  and no timer of 2000 ms is set.  And the counter is not reset when a cycle starts: after
  one duplicate and an empty answer it stands at 1 with nothing pending, and the cycle
  that a filter change then starts ends after four duplicates, with delays 400, 800 and
  1600 ms, leaving the fifth response unanswered.\<close>

theorem C1_delays_counterexample:
  "fst (retryCycle staleOffers (step (SetFilters actionFilters) (displaying (sampleMovie 7))))
     = [200, 400, 800, 1600]
   \<and> fst (retryCycle staleOffers (step (SetFilters actionFilters) (displaying (sampleMovie 7))))
     \<noteq> [200, 400, 800, 1600, 2000]
   \<and> fst (snd (retryCycle staleOffers (step (SetFilters actionFilters) (displaying (sampleMovie 7))))) = 5
   \<and> fetchAttemptCount (run idleAtOne initialApp) = 1
   \<and> pending (run idleAtOne initialApp) = None
   \<and> \<not> isLoading (run idleAtOne initialApp)
   \<and> allDuplicates (replicate 4 (offers (sampleMovie 3)))
         (step (SetFilters actionFilters) (run idleAtOne initialApp))
   \<and> fst (retryCycle (replicate 5 (offers (sampleMovie 3)))
         (step (SetFilters actionFilters) (run idleAtOne initialApp))) = [400, 800, 1600]
   \<and> fst (snd (retryCycle (replicate 5 (offers (sampleMovie 3)))
         (step (SetFilters actionFilters) (run idleAtOne initialApp)))) = 4
   \<and> currentMovie (snd (snd (retryCycle (replicate 5 (offers (sampleMovie 3)))
         (step (SetFilters actionFilters) (run idleAtOne initialApp))))) = None"
  by code_simp

section \<open>The rolling window\<close>

lemma length_slice_last: "length (slice_last n xs) = min n (length xs)"
  by (simp add: slice_last_def)

lemma window_begin:
  "length (recentlyFetchedIds (fst (fetchNextMovie_begin c a))) \<le> length (recentlyFetchedIds a)"
  by (simp add: fetchNextMovie_begin_def Let_def)

lemma window_effect:
  "length (recentlyFetchedIds (fst (fetchEffect a))) \<le> length (recentlyFetchedIds a)"
  by (simp add: fetchEffect_def window_begin)

lemma window_resume:
  assumes "length (recentlyFetchedIds a) \<le> 50"
    and "case candidateOf out of None \<Rightarrow> True | Some m \<Rightarrow> movieId m \<notin> set ex"
  shows "length (recentlyFetchedIds (fetchNextMovie_resume c ex out a)) \<le> 50"
proof (cases out)
  case Rejected
  then show ?thesis using assms by (simp add: fetchNextMovie_resume_def)
next
  case (Resolved r)
  then show ?thesis using assms
    by (auto simp add: fetchNextMovie_resume_def Let_def length_slice_last split: option.splits)
qed

lemma handleAction_window:
  assumes "currentMovie a = Some m" and "\<not> isLoading a"
  shows "recentlyFetchedIds (fst (handleAction action a)) =
           (if fetchAttemptCount a \<ge> maxFetchAttempts then []
            else if length (recentlyFetchedIds a) > 30 then slice_last 15 (recentlyFetchedIds a)
            else recentlyFetchedIds a)"
  using assms
  by (simp add: handleAction_def Let_def fetchNextMovie_begin_def Render.truncate_def split: prod.splits)

lemma window_handleAction:
  "length (recentlyFetchedIds (fst (handleAction action a))) \<le> length (recentlyFetchedIds a)"
proof (cases "currentMovie a")
  case None
  then show ?thesis by (simp add: handleAction_def)
next
  case (Some m)
  show ?thesis
  proof (cases "isLoading a")
    case True
    then show ?thesis using Some by (simp add: handleAction_def)
  next
    case False
    then show ?thesis using Some by (simp add: handleAction_window length_slice_last)
  qed
qed

lemma window_resetMovies: "recentlyFetchedIds (fst (resetMovies a)) = []"
  by (simp add: resetMovies_def fetchNextMovie_begin_def Let_def maxFetchAttempts_def)

lemma window_step:
  assumes "length (recentlyFetchedIds a) \<le> 50" and "\<not> duplicateResponse e a"
  shows "length (recentlyFetchedIds (step e a)) \<le> 50"
proof (cases e)
  case (StartSwiping ms)
  have "length (recentlyFetchedIds (fst (fetchEffect (handleStartSwiping ms a))))
          \<le> length (recentlyFetchedIds (handleStartSwiping ms a))"
    by (rule window_effect)
  then show ?thesis using StartSwiping assms by (simp add: handleStartSwiping_def)
next
  case GoHome
  then show ?thesis using assms by (simp add: handleGoHome_def)
next
  case (SetView v)
  have "length (recentlyFetchedIds (fst (fetchEffect (a\<lparr>currentView := v\<rparr>))))
          \<le> length (recentlyFetchedIds (a\<lparr>currentView := v\<rparr>))"
    by (rule window_effect)
  then show ?thesis using SetView assms by simp
next
  case (SetFilters f)
  have "length (recentlyFetchedIds (fst (fetchEffect (a\<lparr>filters := f\<rparr>))))
          \<le> length (recentlyFetchedIds (a\<lparr>filters := f\<rparr>))"
    by (rule window_effect)
  then show ?thesis using SetFilters assms by simp
next
  case (Response out)
  show ?thesis
  proof (cases "pending a")
    case None
    then show ?thesis using Response assms by simp
  next
    case (Some p)
    obtain c ex where p: "p = (c, ex)" by (cases p)
    have "length (recentlyFetchedIds (fetchNextMovie_resume c ex out (a\<lparr>pending := None\<rparr>))) \<le> 50"
      using assms Response Some p by (intro window_resume) (auto split: option.splits)
    then show ?thesis using Response Some p by simp
  qed
next
  case TimerFire
  show ?thesis
  proof (cases "fetchTimeoutRef a")
    case None
    then show ?thesis using TimerFire assms by simp
  next
    case (Some t)
    obtain d c where t: "t = (d, c)" by (cases t)
    have "length (recentlyFetchedIds (fst (fetchNextMovie_begin c (a\<lparr>fetchTimeoutRef := None\<rparr>))))
            \<le> length (recentlyFetchedIds (a\<lparr>fetchTimeoutRef := None\<rparr>))"
      by (rule window_begin)
    then show ?thesis using TimerFire Some t assms by simp
  qed
next
  case (UserAction action)
  have "length (recentlyFetchedIds (fst (handleAction action a))) \<le> length (recentlyFetchedIds a)"
    by (rule window_handleAction)
  then show ?thesis using UserAction assms by simp
next
  case (MoveMovie m f t)
  then show ?thesis using assms by (simp add: handleMoveMovie_def)
next
  case (RemoveMovie m f)
  then show ?thesis using assms by (simp add: handleRemoveMovie_def)
next
  case Reset
  have "length (recentlyFetchedIds (fst (fetchEffect (fst (resetMovies a)))))
          \<le> length (recentlyFetchedIds (fst (resetMovies a)))"
    by (rule window_effect)
  then show ?thesis using Reset by (simp add: window_resetMovies)
qed

lemma window_run:
  "length (recentlyFetchedIds a) \<le> 50 \<Longrightarrow> duplicateFree es a \<Longrightarrow>
   length (recentlyFetchedIds (run es a)) \<le> 50"
proof (induction es arbitrary: a)
  case Nil
  then show ?case by simp
next
  case (Cons e es)
  then show ?case by (simp add: window_step)
qed

lemma duplicateFree_take: "duplicateFree es a \<Longrightarrow> duplicateFree (take n es) a"
proof (induction es arbitrary: a n)
  case Nil
  then show ?case by simp
next
  case (Cons e es)
  then show ?case by (cases n) simp_all
qed

text \<open>
  C2 (as amended).  From the initial state, along every event sequence in which no response
  is a duplicate, the rolling window holds at most 50 ids at every observation point.
  Immediately after every successful classification it holds at most 30: if it held more
  than 30 it is cut to its last 15 ids, in insertion order, otherwise it is left as it was.
\<close>

theorem C2_rolling_window:
  "(duplicateFree es initialApp \<longrightarrow>
      length (recentlyFetchedIds (run (take n es) initialApp)) \<le> 50)
   \<and> (currentMovie (run es initialApp) \<noteq> None \<and> \<not> isLoading (run es initialApp) \<longrightarrow>
        length (recentlyFetchedIds (step (UserAction action) (run es initialApp))) \<le> 30
        \<and> recentlyFetchedIds (step (UserAction action) (run es initialApp)) =
            (if length (recentlyFetchedIds (run es initialApp)) > 30
             then drop (length (recentlyFetchedIds (run es initialApp)) - 15)
                    (recentlyFetchedIds (run es initialApp))
             else recentlyFetchedIds (run es initialApp)))"
proof -
  have a: "duplicateFree es initialApp \<longrightarrow>
      length (recentlyFetchedIds (run (take n es) initialApp)) \<le> 50"
  proof
    assume "duplicateFree es initialApp"
    then have "duplicateFree (take n es) initialApp" by (rule duplicateFree_take)
    moreover have "length (recentlyFetchedIds initialApp) \<le> 50" by (simp add: initialApp_def)
    ultimately show "length (recentlyFetchedIds (run (take n es) initialApp)) \<le> 50"
      by (simp add: window_run)
  qed
  let ?a = "run es initialApp"
  have b: "currentMovie ?a \<noteq> None \<and> \<not> isLoading ?a \<longrightarrow>
        length (recentlyFetchedIds (step (UserAction action) ?a)) \<le> 30
        \<and> recentlyFetchedIds (step (UserAction action) ?a) =
            (if length (recentlyFetchedIds ?a) > 30
             then drop (length (recentlyFetchedIds ?a) - 15) (recentlyFetchedIds ?a)
             else recentlyFetchedIds ?a)"
  proof
    assume h: "currentMovie ?a \<noteq> None \<and> \<not> isLoading ?a"
    then obtain m where m: "currentMovie ?a = Some m" by auto
    have "budgetInv ?a" by (simp add: budgetInv_run budgetInv_initial)
    with m have k: "\<not> fetchAttemptCount ?a \<ge> maxFetchAttempts"
      by (auto simp add: budgetInv_def)
    have eq: "recentlyFetchedIds (step (UserAction action) ?a) =
            (if length (recentlyFetchedIds ?a) > 30 then slice_last 15 (recentlyFetchedIds ?a)
             else recentlyFetchedIds ?a)"
      using m h k by (simp add: handleAction_window)
    show "length (recentlyFetchedIds (step (UserAction action) ?a)) \<le> 30
        \<and> recentlyFetchedIds (step (UserAction action) ?a) =
            (if length (recentlyFetchedIds ?a) > 30
             then drop (length (recentlyFetchedIds ?a) - 15) (recentlyFetchedIds ?a)
             else recentlyFetchedIds ?a)"
      unfolding eq by (simp add: length_slice_last slice_last_def)
  qed
  from a b show ?thesis by blast
qed

theorem C2_rolling_window_witness:
  "duplicateFree thirtyOneOffers initialApp
   \<and> length (recentlyFetchedIds (run (take 40 thirtyOneOffers) initialApp)) \<le> 50
   \<and> length (recentlyFetchedIds (run thirtyOneOffers initialApp)) = 31
   \<and> recentlyFetchedIds (step (UserAction Like) (run thirtyOneOffers initialApp)) = [17..31]"
proof -
  let ?a = "run thirtyOneOffers initialApp"
  have free: "duplicateFree thirtyOneOffers initialApp" by code_simp
  have shown: "currentMovie ?a \<noteq> None \<and> \<not> isLoading ?a"
    by code_simp
  have ids: "recentlyFetchedIds ?a = [1..31]" by code_simp
  have len: "length [1..31::int] = 31" by code_simp
  have cut: "(if length [1..31::int] > 30 then drop (length [1..31::int] - 15) [1..31]
              else [1..31]) = [17..31]"
    by code_simp
  have bound: "length (recentlyFetchedIds (run (take 40 thirtyOneOffers) initialApp)) \<le> 50"
    and eq: "recentlyFetchedIds (step (UserAction Like) ?a) =
            (if length (recentlyFetchedIds ?a) > 30
             then drop (length (recentlyFetchedIds ?a) - 15) (recentlyFetchedIds ?a)
             else recentlyFetchedIds ?a)"
    using C2_rolling_window [of thirtyOneOffers 40 Like] free shown by blast+
  have trimmed: "recentlyFetchedIds (step (UserAction Like) ?a) = [17..31]"
    using eq by (simp only: ids cut)
  have "length (recentlyFetchedIds ?a) = 31" by (simp only: ids len)
  with free bound trimmed show ?thesis by blast
qed

text \<open>C2 as stated fails twice.  After sixteen offers, fifteen of them skipped, a like
  leaves sixteen ids in the window.  And a duplicate response adds its id without any
  trimming: with fifty ids in the window, an offer of a movie from the liked list makes
  fifty-one.\<close>

theorem C2_window_counterexample:
  "currentMovie (run sixteenOffers initialApp) = Some (sampleMovie 16)
   \<and> \<not> isLoading (run sixteenOffers initialApp)
   \<and> length (recentlyFetchedIds (step (UserAction Like) (run sixteenOffers initialApp))) = 16
   \<and> length (recentlyFetchedIds (run overflowRun initialApp)) = 51"
  by code_simp

end
